theory Spec2Isabelle
  imports Main
begin

section \<open>The remote platform as seen by housekeeping.js\<close>

text \<open>
  The script talks to GitLab through four requests. Each is modelled by what it answers.
  A paginated list request answers, for a page number, either a failure (the rejected
  promise, with its \<open>error.message\<close>) or a page: the array in \<open>response.data\<close> and whether
  the header \<open>x-next-page\<close> is truthy (a non-empty string).
\<close>

datatype 'a response = Failed string | Page "'a list" bool

text \<open>
  The \<open>do ... while (response.headers['x-next-page'])\<close> loop of \<open>fetchAllProjects\<close>,
  \<open>fetchAllJobs\<close> and of the listing inside \<open>deleteProjectArtifacts\<close>. It starts at page 1
  with an empty accumulator. A server that announces a next page forever keeps the loop
  running: the result is then \<open>None\<close>. A rejected request is \<open>Some (Inl message)\<close>, the
  exception that leaves the loop.
\<close>

partial_function (option) fetch_pages ::
  "(nat \<Rightarrow> 'a response) \<Rightarrow> nat \<Rightarrow> 'a list \<Rightarrow> (string + 'a list) option" where
  "fetch_pages get page acc =
     (case get page of
        Failed msg \<Rightarrow> Some (Inl msg)
      | Page d nxt \<Rightarrow>
          if nxt then fetch_pages get (page + 1) (acc @ d) else Some (Inr (acc @ d)))"

section \<open>Dates\<close>

text \<open>
  A JavaScript \<open>Date\<close> holds a time value, milliseconds since the epoch in UTC, or is an
  Invalid Date (its time value is NaN), which is what \<open>new Date(s)\<close> gives for a string
  that does not parse. \<open>timeClip\<close> is the range check every setter ends with.
\<close>

datatype jsdate = InvalidDate | At int

definition timeClip :: "int \<Rightarrow> jsdate" where
  "timeClip t = (if \<bar>t\<bar> \<le> 8640000000000000 then At t else InvalidDate)"

text \<open>
  The host's time zone, as the language sees it: the offset of local time from UTC, in
  milliseconds, at a UTC time (\<open>offset_at\<close>), and the offset by which a local time is
  read back as UTC (\<open>offset_of_local\<close>). The two differ around a clock change.
\<close>

record zone =
  offset_at :: "int \<Rightarrow> int"
  offset_of_local :: "int \<Rightarrow> int"

definition msPerDay :: int where
  "msPerDay = 86400000"

text \<open>
  \<open>d.setDate(d.getDate() + n)\<close>: the local time of \<open>d\<close> is moved by \<open>n\<close> calendar days,
  keeping the time within the day, and read back as UTC. An Invalid Date stays one.
\<close>

definition setDate_by :: "zone \<Rightarrow> int \<Rightarrow> jsdate \<Rightarrow> jsdate" where
  "setDate_by z n d =
     (case d of
        InvalidDate \<Rightarrow> InvalidDate
      | At t \<Rightarrow>
          (let local = t + offset_at z t;
               moved = local + n * msPerDay
           in timeClip (moved - offset_of_local z moved)))"

text \<open>\<open>a < b\<close> on two dates compares the time values; with NaN on a side it is false.\<close>

fun earlier :: "jsdate \<Rightarrow> jsdate \<Rightarrow> bool" where
  "earlier (At a) (At b) = (a < b)"
| "earlier a b = False"

text \<open>The message of the RangeError that \<open>toISOString\<close> throws on an Invalid Date.\<close>

definition invalid_time :: string where
  "invalid_time = ''Invalid time value''"

section \<open>Jobs and the expiration decision\<close>

text \<open>
  A job as the jobs endpoint returns it. For each of the two timestamps \<open>None\<close> is a
  falsy field (absent, null or the empty string) and \<open>Some d\<close> is a truthy one, with
  \<open>d\<close> the date \<open>new Date(...)\<close> makes of it.
\<close>

record job =
  job_id :: int
  artifacts_expire_at :: "jsdate option"
  created_at :: "jsdate option"

definition days7 :: int where
  "days7 = 7 * 24 * 60 * 60 * 1000"

text \<open>Lines 82 and 83, with \<open>now\<close> the time \<open>new Date()\<close> reads.\<close>

definition sevenDaysAgo :: "zone \<Rightarrow> int \<Rightarrow> jsdate" where
  "sevenDaysAgo z now = setDate_by z (- 7) (At now)"

text \<open>Lines 86 to 97: the date the comparison uses, \<open>None\<close> for the \<open>continue\<close>.\<close>

definition expireAtDate :: "zone \<Rightarrow> job \<Rightarrow> jsdate option" where
  "expireAtDate z j =
     (case artifacts_expire_at j of
        Some d \<Rightarrow> Some d
      | None \<Rightarrow> (case created_at j of Some c \<Rightarrow> Some (setDate_by z 7 c) | None \<Rightarrow> None))"

text \<open>Line 99: \<open>expireAtDate < sevenDaysAgo\<close>, reached only with a date.\<close>

definition expired :: "zone \<Rightarrow> int \<Rightarrow> job \<Rightarrow> bool" where
  "expired z now j =
     (case expireAtDate z j of None \<Rightarrow> False | Some e \<Rightarrow> earlier e (sevenDaysAgo z now))"

section \<open>The deletion executor\<close>

text \<open>
  What \<open>deleteProjectArtifacts\<close> does to the outside, in order: the console lines (one
  constructor per message of the source) and the one network mutation, \<open>DeleteCall\<close>.
  A date in a message stands for its \<open>toISOString()\<close> text.
\<close>

datatype event =
    LogStart int
  | LogDryRunMode
  | LogDebugMode
  | LogFound nat int
  | LogAssumed int int
  | LogNoDates int
  | LogExpired int int int
  | LogAttempt int int
  | DeleteCall int int
  | LogDeleted int
  | LogDeleteError int int string
  | LogWouldDelete int int
  | LogNotOlder int int
  | LogCompleted int
  | LogUnhandled int string

text \<open>
  Lines 99 to 118 for the date \<open>e\<close> of a job: the events, and the message of the
  exception that leaves the loop, if one is thrown. \<open>del\<close> answers the DELETE request
  for a job of the project: \<open>None\<close> when it succeeds, the error message when the
  promise is rejected; the rejection is caught at line 106. The messages of lines 100
  and 117 call \<open>toISOString\<close>, which throws on an Invalid Date; at line 100 the date has
  passed the comparison, at line 117 it may be invalid.
\<close>

definition compare_and_delete ::
  "(int \<Rightarrow> string option) \<Rightarrow> jsdate \<Rightarrow> int \<Rightarrow> bool \<Rightarrow> bool \<Rightarrow> job \<Rightarrow> jsdate \<Rightarrow>
   event list \<times> string option" where
  "compare_and_delete del ago projectId debug dryRun j e =
     (if earlier e ago then
        (case e of
           InvalidDate \<Rightarrow> ([], Some invalid_time)
         | At t \<Rightarrow>
             (LogExpired (job_id j) projectId t #
              (if \<not> dryRun then
                 LogAttempt (job_id j) projectId # DeleteCall projectId (job_id j) #
                 (case del (job_id j) of
                    None \<Rightarrow> [LogDeleted (job_id j)]
                  | Some msg \<Rightarrow> [LogDeleteError (job_id j) projectId msg])
               else [LogWouldDelete (job_id j) projectId]),
              None))
      else if debug then
        (case e of
           InvalidDate \<Rightarrow> ([], Some invalid_time)
         | At t \<Rightarrow> ([LogNotOlder (job_id j) t], None))
      else ([], None))"

text \<open>
  One turn of \<open>for (const job of allJobs)\<close>, lines 85 to 119. The debug message of
  line 93 calls \<open>toISOString\<close> on the date made from \<open>created_at\<close>.
\<close>

definition job_step ::
  "(int \<Rightarrow> string option) \<Rightarrow> zone \<Rightarrow> jsdate \<Rightarrow> int \<Rightarrow> bool \<Rightarrow> bool \<Rightarrow> job \<Rightarrow>
   event list \<times> string option" where
  "job_step del z ago projectId debug dryRun j =
     (case artifacts_expire_at j of
        Some d \<Rightarrow> compare_and_delete del ago projectId debug dryRun j d
      | None \<Rightarrow>
          (case created_at j of
             Some c \<Rightarrow>
               (let e = setDate_by z 7 c
                in if debug then
                     (case e of
                        InvalidDate \<Rightarrow> ([], Some invalid_time)
                      | At t \<Rightarrow>
                          (let (es, thrown) = compare_and_delete del ago projectId debug dryRun j e
                           in (LogAssumed (job_id j) t # es, thrown)))
                   else compare_and_delete del ago projectId debug dryRun j e)
           | None \<Rightarrow> ((if debug then [LogNoDates (job_id j)] else []), None)))"

text \<open>The loop: an exception in a turn ends it, and the later jobs are not looked at.\<close>

fun job_loop ::
  "(int \<Rightarrow> string option) \<Rightarrow> zone \<Rightarrow> jsdate \<Rightarrow> int \<Rightarrow> bool \<Rightarrow> bool \<Rightarrow> job list \<Rightarrow>
   event list \<times> string option" where
  "job_loop del z ago projectId debug dryRun [] = ([], None)"
| "job_loop del z ago projectId debug dryRun (j # js) =
     (case job_step del z ago projectId debug dryRun j of
        (es, Some msg) \<Rightarrow> (es, Some msg)
      | (es, None) \<Rightarrow>
          (let (es', thrown) = job_loop del z ago projectId debug dryRun js
           in (es @ es', thrown)))"


text \<open>The DELETE requests of a trace, as the job identifiers, in the order issued.\<close>

fun delete_calls :: "event list \<Rightarrow> int list" where
  "delete_calls [] = []"
| "delete_calls (DeleteCall p i # es) = i # delete_calls es"
| "delete_calls (e # es) = delete_calls es"

text \<open>The deletions a dry run announces (line 114), as the job identifiers.\<close>

fun would_delete :: "event list \<Rightarrow> int list" where
  "would_delete [] = []"
| "would_delete (LogWouldDelete i p # es) = i # would_delete es"
| "would_delete (e # es) = would_delete es"


section \<open>JSON documents and the values read from them\<close>

text \<open>
  Everything the reconciler handles comes out of \<open>JSON.parse\<close> (the summary file) or out of
  a response body, or is built from such values, so its data is a JSON document. Numbers
  are the integers GitLab sends (identifiers, byte counts), each one that a double holds
  exactly, that is below 2 to the 53 in size. The value of a property read
  is a \<open>json option\<close>: \<open>None\<close> is \<open>undefined\<close>, what reading an absent property gives.
  An object is the list of its properties in insertion order, which is the order
  \<open>JSON.stringify\<close> prints them in.
\<close>

datatype json =
    JNull
  | JBool bool
  | JNum int
  | JStr string
  | JArr "json list"
  | JObj "(string \<times> json) list"

type_synonym obj = "(string \<times> json) list"

text \<open>\<open>o.k\<close> on an object.\<close>

definition property :: "obj \<Rightarrow> string \<Rightarrow> json option" where
  "property ob k = map_of ob k"

text \<open>
  \<open>v.k\<close> on a value that is known to be truthy (the source guards the read with
  \<open>project.statistics &&\<close>), for a key that no built-in prototype has: a property of
  the object, \<open>undefined\<close> on anything else.
\<close>

fun field :: "json option \<Rightarrow> string \<Rightarrow> json option" where
  "field (Some (JObj ob)) k = property ob k"
| "field v k = None"

text \<open>\<open>o.k = v\<close>: an existing property keeps its place, a new one goes last.\<close>

fun assign :: "string \<Rightarrow> json \<Rightarrow> obj \<Rightarrow> obj" where
  "assign k v [] = [(k, v)]"
| "assign k v (p # ps) = (if fst p = k then (k, v) # ps else p # assign k v ps)"

text \<open>
  An object literal \<open>{k1: v1, ...}\<close>. A property whose value is \<open>undefined\<close> is left out:
  the script only reads properties and stringifies, and both treat such a property as
  an absent one.
\<close>

fun literal :: "(string \<times> json option) list \<Rightarrow> obj" where
  "literal [] = []"
| "literal ((k, None) # kvs) = literal kvs"
| "literal ((k, Some v) # kvs) = (k, v) # literal kvs"

text \<open>Truthiness, as \<open>if\<close>, \<open>!\<close>, \<open>&&\<close> and \<open>||\<close> test it.\<close>

fun truthy :: "json option \<Rightarrow> bool" where
  "truthy None = False"
| "truthy (Some JNull) = False"
| "truthy (Some (JBool b)) = b"
| "truthy (Some (JNum n)) = (n \<noteq> 0)"
| "truthy (Some (JStr s)) = (s \<noteq> [])"
| "truthy (Some (JArr xs)) = True"
| "truthy (Some (JObj ob)) = True"

text \<open>
  \<open>a === b\<close>. Primitives compare by value. Arrays and objects compare by reference; the
  script compares the identifier of a record with the identifiers kept from other
  records, and two such values are taken never to be the same reference. GitLab's
  identifiers are numbers.
\<close>

fun strict_eq :: "json option \<Rightarrow> json option \<Rightarrow> bool" where
  "strict_eq None None = True"
| "strict_eq (Some (JArr xs)) b = False"
| "strict_eq (Some (JObj ob)) b = False"
| "strict_eq a b = (a = b)"

text \<open>Decimal digits of a natural number, and of an integer as JavaScript prints it.\<close>

fun decimal :: "nat \<Rightarrow> string" where
  "decimal n = (if n < 10 then [''0123456789'' ! n]
                else decimal (n div 10) @ [''0123456789'' ! (n mod 10)])"

definition int_string :: "int \<Rightarrow> string" where
  "int_string i = (if i < 0 then CHR ''-'' # decimal (nat (- i)) else decimal (nat i))"

text \<open>
  \<open>`${v}`\<close>: the string a template literal puts in for a value. An array joins its
  elements with commas, \<open>null\<close> elements as the empty string.
\<close>

fun join :: "string list \<Rightarrow> string" where
  "join [] = []"
| "join [s] = s"
| "join (s # t # ss) = s @ CHR '','' # join (t # ss)"

fun to_string :: "json option \<Rightarrow> string" where
  "to_string None = ''undefined''"
| "to_string (Some JNull) = ''null''"
| "to_string (Some (JBool b)) = (if b then ''true'' else ''false'')"
| "to_string (Some (JNum n)) = int_string n"
| "to_string (Some (JStr s)) = s"
| "to_string (Some (JArr xs)) =
     join (map (\<lambda>x. if x = JNull then [] else to_string (Some x)) xs)"
| "to_string (Some (JObj ob)) = ''[object Object]''"

text \<open>
  \<open>(bytes / (1024 * 1024)).toFixed(2)\<close> for an integer byte count that a double holds
  exactly. Dividing by a power of two is then exact, the quotient stays far below the
  1e21 from which \<open>toFixed\<close> would print an exponent, and \<open>toFixed\<close> takes the nearest
  number of hundredths, the larger one at a tie, after setting the sign aside.
\<close>

definition hundredths :: "nat \<Rightarrow> nat" where
  "hundredths n = (200 * n + 1048576) div 2097152"

definition fixed2 :: "nat \<Rightarrow> string" where
  "fixed2 h = decimal (h div 100) @ CHR ''.'' # [''0123456789'' ! (h mod 100 div 10), ''0123456789'' ! (h mod 10)]"

definition megabytes :: "int \<Rightarrow> string" where
  "megabytes n = (if n < 0 then CHR ''-'' # fixed2 (hundredths (nat (- n)))
                  else fixed2 (hundredths (nat n)))"

text \<open>
  What \<open>Number(s)\<close> makes of a string that spells an integer: blanks around it are
  dropped, the empty string is 0, a sign may lead the digits. \<open>None\<close> stands for every
  other string.
\<close>

definition blank :: "char \<Rightarrow> bool" where
  "blank c = (c \<in> set [CHR '' '', CHR 0x09, CHR 0x0A, CHR 0x0B, CHR 0x0C, CHR 0x0D])"

definition trim :: "string \<Rightarrow> string" where
  "trim s = rev (dropWhile blank (rev (dropWhile blank s)))"

definition digit_table :: "(char \<times> nat) list" where
  "digit_table =
     [(CHR ''0'', 0), (CHR ''1'', 1), (CHR ''2'', 2), (CHR ''3'', 3), (CHR ''4'', 4),
      (CHR ''5'', 5), (CHR ''6'', 6), (CHR ''7'', 7), (CHR ''8'', 8), (CHR ''9'', 9)]"

fun digits_value :: "nat \<Rightarrow> string \<Rightarrow> nat option" where
  "digits_value acc [] = Some acc"
| "digits_value acc (c # cs) =
     (case map_of digit_table c of
        None \<Rightarrow> None
      | Some d \<Rightarrow> digits_value (10 * acc + d) cs)"

definition integer_of_string :: "string \<Rightarrow> int option" where
  "integer_of_string s =
     (case trim s of
        [] \<Rightarrow> Some 0
      | c # r \<Rightarrow>
          if c = CHR ''-'' then
            (if r = [] then None else map_option (\<lambda>n. - int n) (digits_value 0 r))
          else if c = CHR ''+'' then
            (if r = [] then None else map_option int (digits_value 0 r))
          else map_option int (digits_value 0 (c # r)))"

text \<open>
  The same for whatever \<open>buildArtifactsSizeBytes\<close> holds: the number 0 or a truthy
  \<open>job_artifacts_size\<close>. GitLab sends a number. JavaScript turns any other value into a
  number first: \<open>true\<close> is 1, a string is read as a number, an array is first joined to
  a string, an object is not a number. The model follows strings that spell an integer;
  a string that spells a number in another way (a fraction, an exponent, hexadecimal
  digits, \<open>Infinity\<close>) gets \<open>NaN\<close> here as a string that spells none does, which is not
  what JavaScript writes for it.
\<close>

fun size_mb :: "json \<Rightarrow> string" where
  "size_mb (JNum n) = megabytes n"
| "size_mb (JBool b) = megabytes (if b then 1 else 0)"
| "size_mb JNull = megabytes 0"
| "size_mb (JStr s) = (case integer_of_string s of Some n \<Rightarrow> megabytes n | None \<Rightarrow> ''NaN'')"
| "size_mb (JArr xs) =
     (case integer_of_string (to_string (Some (JArr xs))) of
        Some n \<Rightarrow> megabytes n
      | None \<Rightarrow> ''NaN'')"
| "size_mb (JObj ob) = ''NaN''"

section \<open>The summary file and the raw statistics file\<close>

text \<open>
  A file is missing, holds text that \<open>JSON.parse\<close> rejects, or holds a JSON array of
  objects, which is all \<open>main\<close> ever writes. \<open>load\<close> is lines 169 to 177.
\<close>

datatype json_file = Missing | Unparsable | Json "obj list"

definition load :: "json_file \<Rightarrow> obj list" where
  "load f = (case f of Missing \<Rightarrow> [] | Unparsable \<Rightarrow> [] | Json entries \<Rightarrow> entries)"

record files =
  summary_file :: json_file
  raw_file :: json_file

section \<open>The statistics reconciler\<close>

text \<open>
  \<open>get_projects\<close> answers \<open>GET /projects\<close> by page; \<open>get_project\<close> answers
  \<open>GET /projects/:id?statistics=true\<close> for the identifier put in the URL, with the body
  or with the message of the rejection.
\<close>

record gitlab =
  get_projects :: "nat \<Rightarrow> obj response"
  get_project :: "json option \<Rightarrow> string + obj"

text \<open>What \<open>main\<close> does to the outside: the single-project requests and the file writes.\<close>

datatype effect =
    GetProject "json option"
  | Skipping "json option"
  | WriteRaw "obj list"
  | WriteSummary "obj list"

datatype ending = Completed | Exit1 | Caught string

text \<open>Line 206: \<open>projectArtifactSummaries.find(entry => entry.projectId === project.id)\<close>.\<close>

definition existingEntry :: "obj list \<Rightarrow> obj \<Rightarrow> obj option" where
  "existingEntry summaries project =
     find (\<lambda>entry. strict_eq (property entry ''projectId'') (property project ''id'')) summaries"

text \<open>
  Lines 216 to 236: the project with its statistics. When the request is rejected the
  listed project itself gets an empty \<open>statistics\<close> and the \<open>error\<close> text.
\<close>

definition fetch_error :: "obj \<Rightarrow> string \<Rightarrow> string" where
  "fetch_error project msg =
     ''Error fetching statistics for project '' @ to_string (property project ''id'') @ '': '' @ msg"

definition projectWithStats :: "(json option \<Rightarrow> string + obj) \<Rightarrow> obj \<Rightarrow> obj" where
  "projectWithStats get project =
     (case get (property project ''id'') of
        Inr data \<Rightarrow> data
      | Inl msg \<Rightarrow>
          assign ''error'' (JStr (fetch_error project msg))
            (assign ''statistics'' (JObj []) project))"

text \<open>
  One turn of the loop at line 205: the record pushed to \<open>projectsWithStatistics\<close> and
  what the turn did. The test of line 209 reuses the stored entry.
\<close>

definition gather_step ::
  "(json option \<Rightarrow> string + obj) \<Rightarrow> bool \<Rightarrow> obj list \<Rightarrow> obj \<Rightarrow> obj \<times> effect list" where
  "gather_step get forceUpdate summaries project =
     (case existingEntry summaries project of
        None \<Rightarrow> (projectWithStats get project, [GetProject (property project ''id'')])
      | Some entry \<Rightarrow>
          if \<not> forceUpdate \<and> \<not> truthy (property entry ''error'') \<and> truthy (property entry ''statistics'')
          then (entry, [Skipping (property project ''id'')])
          else (projectWithStats get project, [GetProject (property project ''id'')]))"

text \<open>The test of line 209 for a listed project: its stored entry is reused.\<close>

definition reused :: "bool \<Rightarrow> obj list \<Rightarrow> obj \<Rightarrow> bool" where
  "reused forceUpdate summaries project =
     (case existingEntry summaries project of
        None \<Rightarrow> False
      | Some entry \<Rightarrow>
          \<not> forceUpdate \<and> \<not> truthy (property entry ''error'') \<and>
          truthy (property entry ''statistics''))"

fun gather ::
  "(json option \<Rightarrow> string + obj) \<Rightarrow> bool \<Rightarrow> obj list \<Rightarrow> obj list \<Rightarrow> obj list \<times> effect list" where
  "gather get forceUpdate summaries [] = ([], [])"
| "gather get forceUpdate summaries (project # rest) =
     (let (r, e) = gather_step get forceUpdate summaries project;
          (rs, es) = gather get forceUpdate summaries rest
      in (r # rs, e @ es))"

text \<open>
  Lines 248 to 266: the summary entry of a record, with the time stamp read then.
  \<open>available\<close> is the test of line 251.
\<close>

definition unavailable :: string where
  "unavailable = ''Build artifacts size not available in project statistics.''"

definition available :: "obj \<Rightarrow> bool" where
  "available project =
     (truthy (property project ''statistics'') \<and>
      truthy (field (property project ''statistics'') ''job_artifacts_size''))"

text \<open>\<open>v || null\<close>.\<close>

definition or_null :: "json option \<Rightarrow> json" where
  "or_null v = (case v of None \<Rightarrow> JNull | Some x \<Rightarrow> if truthy (Some x) then x else JNull)"

definition summaryEntry :: "obj \<Rightarrow> string \<Rightarrow> obj" where
  "summaryEntry project stamp =
     (let buildArtifactsSizeBytes =
            (case field (property project ''statistics'') ''job_artifacts_size'' of
               Some n \<Rightarrow> if available project then n else JNum 0
             | None \<Rightarrow> JNum 0);
          projectError =
            (if available project then or_null (property project ''error'')
             else JStr unavailable)
      in literal
           [(''projectId'', property project ''id''),
            (''projectName'', property project ''name''),
            (''buildArtifactsSizeBytes'', Some buildArtifactsSizeBytes),
            (''buildArtifactsSizeMB'', Some (JStr (size_mb buildArtifactsSizeBytes))),
            (''statistics'', property project ''statistics''),
            (''error'', Some projectError),
            (''timestamp'', Some (JStr stamp))])"

text \<open>
  Lines 269 to 274: \<open>findIndex\<close> gives the first position whose entry has the record's
  \<open>id\<close> as \<open>projectId\<close>, or -1; the entry replaces the one there or goes last.
\<close>

fun findIndex :: "('a \<Rightarrow> bool) \<Rightarrow> 'a list \<Rightarrow> int" where
  "findIndex P [] = - 1"
| "findIndex P (x # xs) =
     (if P x then 0 else (let i = findIndex P xs in if i > - 1 then i + 1 else - 1))"

definition upsert :: "obj list \<Rightarrow> json option \<Rightarrow> obj \<Rightarrow> obj list" where
  "upsert summaries pid entry =
     (let existingIndex = findIndex (\<lambda>e. strict_eq (property e ''projectId'') pid) summaries
      in if existingIndex > - 1 then summaries[nat existingIndex := entry]
         else summaries @ [entry])"

text \<open>
  The loop at line 246: each record is turned into its entry, upserted under the
  record's \<open>id\<close>, and the whole collection is written. \<open>clock k\<close> is the time stamp
  \<open>new Date().toISOString()\<close> gives in turn \<open>k\<close>.
\<close>

fun generate :: "(nat \<Rightarrow> string) \<Rightarrow> nat \<Rightarrow> obj list \<Rightarrow> obj list \<Rightarrow> obj list \<times> effect list" where
  "generate clock k summaries [] = (summaries, [])"
| "generate clock k summaries (project # rest) =
     (let summaries' = upsert summaries (property project ''id'') (summaryEntry project (clock k));
          (final, es) = generate clock (Suc k) summaries' rest
      in (final, WriteSummary summaries' # es))"

text \<open>
  Lines 242 to 279 for the records gathered: the raw file is overwritten, then the
  summary file after each record; with no record the summary file is not touched.
\<close>

definition write_out ::
  "(nat \<Rightarrow> string) \<Rightarrow> files \<Rightarrow> obj list \<times> effect list \<Rightarrow> files \<times> effect list \<times> ending" where
  "write_out clock fs gathered =
     (let (records, es) = gathered;
          (final, ws) = generate clock 0 (load (summary_file fs)) records
      in (\<lparr>summary_file = (if records = [] then summary_file fs else Json final),
           raw_file = Json records\<rparr>,
          es @ WriteRaw records # ws,
          Completed))"

text \<open>
  \<open>main(targetProjectId, forceUpdate)\<close>. With a truthy target the one project is
  requested and a rejection ends the process with code 1. Otherwise all projects are
  listed; a rejection there is caught at line 292 and nothing is written. \<open>None\<close> is a
  listing that never ends.
\<close>

definition main ::
  "gitlab \<Rightarrow> (nat \<Rightarrow> string) \<Rightarrow> json option \<Rightarrow> bool \<Rightarrow> files \<Rightarrow>
   (files \<times> effect list \<times> ending) option" where
  "main gl clock targetProjectId forceUpdate fs =
     (if truthy targetProjectId then
        (case get_project gl targetProjectId of
           Inl msg \<Rightarrow> Some (fs, [GetProject targetProjectId], Exit1)
         | Inr data \<Rightarrow> Some (write_out clock fs ([data], [GetProject targetProjectId])))
      else
        (case fetch_pages (get_projects gl) 1 [] of
           None \<Rightarrow> None
         | Some (Inl msg) \<Rightarrow> Some (fs, [], Caught msg)
         | Some (Inr basicProjects) \<Rightarrow>
             Some (write_out clock fs
                     (gather (get_project gl) forceUpdate (load (summary_file fs)) basicProjects))))"

text \<open>Runs one after the other, each on the files the one before left.\<close>

record run =
  platform :: gitlab
  stamps :: "nat \<Rightarrow> string"
  target :: "json option"
  force :: bool

fun runs :: "run list \<Rightarrow> files \<Rightarrow> files option" where
  "runs [] fs = Some fs"
| "runs (r # rs) fs =
     (case main (platform r) (stamps r) (target r) (force r) fs of
        None \<Rightarrow> None
      | Some (fs', es, how) \<Rightarrow> runs rs fs')"

text \<open>No two entries of a collection have the same \<open>projectId\<close>.\<close>

fun unique_ids :: "obj list \<Rightarrow> bool" where
  "unique_ids [] = True"
| "unique_ids (e # es) =
     (\<not> list_ex (\<lambda>e'. strict_eq (property e' ''projectId'') (property e ''projectId'')) es \<and> unique_ids es)"

text \<open>The statistics requests and the summary writes of a trace.\<close>

fun requests :: "effect list \<Rightarrow> json option list" where
  "requests [] = []"
| "requests (GetProject i # es) = i # requests es"
| "requests (e # es) = requests es"

fun writes :: "effect list \<Rightarrow> obj list list" where
  "writes [] = []"
| "writes (WriteSummary s # es) = s # writes es"
| "writes (e # es) = writes es"

section \<open>Concrete inputs for the deletion executor\<close>

text \<open>
  A host on UTC, and a host on Central European Time around the clock change of
  31 March 2024, 01:00 UTC. \<open>noon\<close> is 3 April 2024, 12:00 UTC.
\<close>

definition utc :: zone where
  "utc = \<lparr>offset_at = (\<lambda>t. 0), offset_of_local = (\<lambda>t. 0)\<rparr>"

definition berlin :: zone where
  "berlin =
     \<lparr>offset_at = (\<lambda>t. if t < 1711846800000 then 3600000 else 7200000),
      offset_of_local = (\<lambda>t. if t < 1711854000000 then 3600000 else 7200000)\<rparr>"

definition noon :: int where
  "noon = 1712145600000"

definition day :: int where
  "day = 86400000"

text \<open>
  Jobs: 10 expires at time 0; 11 was created at time 0; 12 has no date; the
  \<open>created_at\<close> of 13 does not parse; 40 expires six days and 23.5 hours before \<open>noon\<close>;
  41 was created 13 days and 23.5 hours before \<open>noon\<close>.
\<close>

definition job10 :: job where
  "job10 = \<lparr>job_id = 10, artifacts_expire_at = Some (At 0), created_at = None\<rparr>"

definition job11 :: job where
  "job11 = \<lparr>job_id = 11, artifacts_expire_at = None, created_at = Some (At 0)\<rparr>"

definition job12 :: job where
  "job12 = \<lparr>job_id = 12, artifacts_expire_at = None, created_at = None\<rparr>"

definition job13 :: job where
  "job13 = \<lparr>job_id = 13, artifacts_expire_at = None, created_at = Some InvalidDate\<rparr>"

definition job40 :: job where
  "job40 = \<lparr>job_id = 40, artifacts_expire_at = Some (At 1711542600000), created_at = None\<rparr>"

definition job41 :: job where
  "job41 = \<lparr>job_id = 41, artifacts_expire_at = None, created_at = Some (At 1710937800000)\<rparr>"




definition del_fails_10 :: "int \<Rightarrow> string option" where
  "del_fails_10 i = (if i = 10 then Some ''Request failed with status code 403'' else None)"

section \<open>Concrete inputs for the reconciler\<close>

text \<open>
  Project \<open>demo\<close> has five megabytes of artifacts; the statistics of project \<open>vault\<close> are
  refused; \<open>idle_data\<close> is the answer for a project without artifacts. \<open>demo_entry\<close> is
  the entry the first run stores for \<open>demo\<close>, \<open>nameless_entry\<close> the one the second run adds.
\<close>

definition demo :: obj where
  "demo = [(''id'', JNum 1), (''name'', JStr ''demo'')]"

definition demo_data :: obj where
  "demo_data = [(''id'', JNum 1), (''name'', JStr ''demo''),
                (''statistics'', JObj [(''job_artifacts_size'', JNum 5242880)])]"

definition idle_data :: obj where
  "idle_data = [(''id'', JNum 3), (''name'', JStr ''idle''),
                (''statistics'', JObj [(''job_artifacts_size'', JNum 0)])]"


definition one_project :: gitlab where
  "one_project =
     \<lparr>get_projects = (\<lambda>n. Page [demo] False),
      get_project = (\<lambda>i. if i = Some (JNum 1) then Inr demo_data
                          else Inl ''Request failed with status code 404'')\<rparr>"


definition fresh :: files where
  "fresh = \<lparr>summary_file = Missing, raw_file = Missing\<rparr>"

definition monday :: "nat \<Rightarrow> string" where
  "monday k = ''2024-01-01T08:00:00.00'' @ decimal k @ ''Z''"

definition tuesday :: "nat \<Rightarrow> string" where
  "tuesday k = ''2024-01-02T08:00:00.00'' @ decimal k @ ''Z''"

definition demo_entry :: obj where
  "demo_entry =
     [(''projectId'', JNum 1), (''projectName'', JStr ''demo''),
      (''buildArtifactsSizeBytes'', JNum 5242880), (''buildArtifactsSizeMB'', JStr ''5.00''),
      (''statistics'', JObj [(''job_artifacts_size'', JNum 5242880)]),
      (''error'', JNull), (''timestamp'', JStr ''2024-01-01T08:00:00.000Z'')]"

definition nameless_entry :: obj where
  "nameless_entry =
     [(''buildArtifactsSizeBytes'', JNum 5242880), (''buildArtifactsSizeMB'', JStr ''5.00''),
      (''statistics'', JObj [(''job_artifacts_size'', JNum 5242880)]),
      (''error'', JNull), (''timestamp'', JStr ''2024-01-02T08:00:00.000Z'')]"

text \<open>The files after the first and after the second run over \<open>one_project\<close>.\<close>

definition after_first :: files where
  "after_first = \<lparr>summary_file = Json [demo_entry], raw_file = Json [demo_data]\<rparr>"

definition after_second :: files where
  "after_second = \<lparr>summary_file = Json [demo_entry, nameless_entry], raw_file = Json [demo_entry]\<rparr>"

definition monday_run :: run where
  "monday_run = \<lparr>platform = one_project, stamps = monday, target = Some JNull, force = False\<rparr>"

definition tuesday_run :: run where
  "tuesday_run = \<lparr>platform = one_project, stamps = tuesday, target = Some JNull, force = False\<rparr>"






section \<open>Properties of the deletion executor\<close>

subsection \<open>Traces, the loop and the outcome\<close>

lemma delete_calls_append: "delete_calls (xs @ ys) = delete_calls xs @ delete_calls ys"
  by (induction xs rule: delete_calls.induct) simp_all

lemma would_delete_append: "would_delete (xs @ ys) = would_delete xs @ would_delete ys"
  by (induction xs rule: would_delete.induct) simp_all


lemma earlier_At: "earlier e ago \<Longrightarrow> \<exists>t. e = At t"
  by (cases e; cases ago) simp_all

lemma delete_calls_compare:
  "delete_calls (fst (compare_and_delete del ago p dbg dry j e)) =
     (if \<not> dry \<and> earlier e ago then [job_id j] else [])"
  by (cases e; cases ago) (simp_all add: compare_and_delete_def split: option.splits)

lemma would_delete_compare:
  "would_delete (fst (compare_and_delete del ago p dbg dry j e)) =
     (if dry \<and> earlier e ago then [job_id j] else [])"
  by (cases e; cases ago) (simp_all add: compare_and_delete_def split: option.splits)


lemma thrown_compare:
  "snd (compare_and_delete del ago p dbg dry j e) =
     (if dbg \<and> e = InvalidDate then Some invalid_time else None)"
  by (cases e; cases ago) (simp_all add: compare_and_delete_def)

lemma delete_calls_step:
  "delete_calls (fst (job_step del z (sevenDaysAgo z now) p dbg dry j)) =
     (if \<not> dry \<and> expired z now j then [job_id j] else [])"
  by (simp add: job_step_def expired_def expireAtDate_def Let_def split_beta delete_calls_compare
      split: option.splits jsdate.splits)

lemma would_delete_step:
  "would_delete (fst (job_step del z (sevenDaysAgo z now) p dbg dry j)) =
     (if dry \<and> expired z now j then [job_id j] else [])"
  by (simp add: job_step_def expired_def expireAtDate_def Let_def split_beta would_delete_compare
      split: option.splits jsdate.splits)


lemma thrown_step:
  "snd (job_step del z ago p dbg dry j) =
     (if dbg \<and> expireAtDate z j = Some InvalidDate then Some invalid_time else None)"
  by (simp add: job_step_def expireAtDate_def Let_def split_beta thrown_compare
      split: option.splits jsdate.splits)

lemma job_loop_Cons:
  "job_loop del z ago p dbg dry (j # js) =
     (if snd (job_step del z ago p dbg dry j) = None
      then (fst (job_step del z ago p dbg dry j) @ fst (job_loop del z ago p dbg dry js),
            snd (job_loop del z ago p dbg dry js))
      else job_step del z ago p dbg dry j)"
  by (cases "job_step del z ago p dbg dry j") (auto simp add: split_beta)

lemma job_loop_append:
  "job_loop del z ago p dbg dry (xs @ ys) =
     (if snd (job_loop del z ago p dbg dry xs) = None
      then (fst (job_loop del z ago p dbg dry xs) @ fst (job_loop del z ago p dbg dry ys),
            snd (job_loop del z ago p dbg dry ys))
      else job_loop del z ago p dbg dry xs)"
  by (induction xs) (auto simp add: job_loop_Cons simp del: job_loop.simps(2))



lemma loop_abandoned:
  "dbg \<Longrightarrow> \<exists>j \<in> set js. expireAtDate z j = Some InvalidDate \<Longrightarrow>
     snd (job_loop del z ago p dbg dry js) = Some invalid_time"
  by (induction js) (auto simp add: job_loop_Cons thrown_step simp del: job_loop.simps(2))

lemma delete_calls_loop:
  "dbg \<longrightarrow> (\<forall>j \<in> set js. expireAtDate z j \<noteq> Some InvalidDate) \<Longrightarrow>
     delete_calls (fst (job_loop del z (sevenDaysAgo z now) p dbg dry js)) =
       (if dry then [] else map job_id (filter (expired z now) js))"
  by (induction js)
     (auto simp add: job_loop_Cons thrown_step delete_calls_append delete_calls_step
        simp del: job_loop.simps(2))



lemma fetch_pages_stops:
  "(case get (page + k) of Failed m \<Rightarrow> True | Page d nxt \<Rightarrow> \<not> nxt) \<Longrightarrow>
   \<exists>r. fetch_pages get page acc = Some r"
proof (induction k arbitrary: page acc)
  case 0
  then show ?case by (subst fetch_pages.simps) (simp split: response.splits)
next
  case (Suc k)
  from Suc.prems have "\<exists>r. fetch_pages get (page + 1) acc' = Some r" for acc'
    by (intro Suc.IH) simp
  then show ?case by (subst fetch_pages.simps) (simp split: response.splits)
qed



lemma setDate_by_fixed:
  assumes "\<forall>t. offset_at z t = k \<and> offset_of_local z t = k"
  shows "setDate_by z n (At t) = timeClip (t + n * msPerDay)"
  using assms by (simp add: setDate_by_def Let_def)

subsection \<open>The concrete listings, zones and jobs\<close>




lemma utc_fixed: "\<forall>t. offset_at utc t = 0 \<and> offset_of_local utc t = 0"
  by (simp add: utc_def)

lemma utc_ago: "sevenDaysAgo utc (20 * day) = At (13 * day)"
  by (simp add: sevenDaysAgo_def setDate_by_fixed [OF utc_fixed] timeClip_def msPerDay_def day_def)

lemma berlin_ago: "sevenDaysAgo berlin noon = At 1711544400000"
  by (simp add: sevenDaysAgo_def setDate_by_def Let_def berlin_def noon_def msPerDay_def
      timeClip_def)

lemma expired_utc:
  "expired utc (20 * day) job10" "expired utc (20 * day) job11"
  "\<not> expired utc (20 * day) job12" "\<not> expired utc (20 * day) job13"
  by (simp_all add: expired_def expireAtDate_def sevenDaysAgo_def setDate_by_def Let_def utc_def
      timeClip_def msPerDay_def day_def job10_def job11_def job12_def job13_def)

lemma formattable_two_pages:
  "\<forall>j \<in> set [job10, job11, job12, job10]. expireAtDate utc j \<noteq> Some InvalidDate"
  by (simp add: expireAtDate_def job10_def job11_def job12_def
      setDate_by_fixed [OF utc_fixed] timeClip_def msPerDay_def)


subsection \<open>The claims\<close>

text \<open>
  Claim C4, as the source has it. A job whose \<open>artifacts_expire_at\<close> is present is
  expired exactly when the date made of it is strictly earlier than \<open>sevenDaysAgo\<close>, the
  reference time moved back seven calendar days of the host's local time
  (\<open>setDate(getDate() - 7)\<close>): the live run then issues its one delete call, the dry run
  announces it. At equality the job is not expired; a date that does not parse is never
  earlier. Where the host's offset from UTC never changes, \<open>sevenDaysAgo\<close> is the
  reference time minus seven times 24 hours.
\<close>

theorem expire_at_strictly_older:
  assumes "artifacts_expire_at j = Some d"
  shows "expired z now j = earlier d (sevenDaysAgo z now) \<and>
         (d = At t \<and> sevenDaysAgo z now = At s \<longrightarrow> expired z now j = (t < s)) \<and>
         (sevenDaysAgo z now = d \<longrightarrow> \<not> expired z now j) \<and>
         (delete_calls (fst (job_step del z (sevenDaysAgo z now) p dbg False j)) = [job_id j]) =
           earlier d (sevenDaysAgo z now) \<and>
         (would_delete (fst (job_step del z (sevenDaysAgo z now) p dbg True j)) = [job_id j]) =
           earlier d (sevenDaysAgo z now) \<and>
         ((\<forall>u. offset_at z u = k \<and> offset_of_local z u = k) \<and>
          \<bar>now - days7\<bar> \<le> 8640000000000000 \<longrightarrow>
          sevenDaysAgo z now = At (now - days7))"
proof -
  have c1: "expired z now j = earlier d (sevenDaysAgo z now)"
    using assms by (simp add: expired_def expireAtDate_def)
  have c2: "d = At t \<and> sevenDaysAgo z now = At s \<longrightarrow> expired z now j = (t < s)"
    by (simp add: c1)
  have "\<not> earlier d d" by (cases d) simp_all
  then have c3: "sevenDaysAgo z now = d \<longrightarrow> \<not> expired z now j"
    by (simp add: c1)
  have c4: "(delete_calls (fst (job_step del z (sevenDaysAgo z now) p dbg False j)) = [job_id j]) =
              earlier d (sevenDaysAgo z now)"
    by (simp add: delete_calls_step c1)
  have c5: "(would_delete (fst (job_step del z (sevenDaysAgo z now) p dbg True j)) = [job_id j]) =
              earlier d (sevenDaysAgo z now)"
    by (simp add: would_delete_step c1)
  have c6: "(\<forall>u. offset_at z u = k \<and> offset_of_local z u = k) \<and>
            \<bar>now - days7\<bar> \<le> 8640000000000000 \<longrightarrow>
            sevenDaysAgo z now = At (now - days7)"
  proof
    assume a: "(\<forall>u. offset_at z u = k \<and> offset_of_local z u = k) \<and>
               \<bar>now - days7\<bar> \<le> 8640000000000000"
    then have f: "\<forall>u. offset_at z u = k \<and> offset_of_local z u = k" by simp
    from a show "sevenDaysAgo z now = At (now - days7)"
      by (simp add: sevenDaysAgo_def setDate_by_fixed [OF f] timeClip_def msPerDay_def days7_def)
  qed
  show ?thesis
    by (intro conjI c1 c2 c3 c4 c5 c6)
qed

text \<open>
  Job 10 expires at time 0: on a UTC host it is expired on day 8, not on day 6, not on
  day 7 exactly. Job 40 on the Berlin host at \<open>noon\<close>: \<open>sevenDaysAgo\<close> is seven days less
  one hour before \<open>noon\<close>, and the job is expired.
\<close>

theorem expire_at_strictly_older_witness:
  "artifacts_expire_at job10 = Some (At 0) \<and>
   expired utc (8 * day) job10 \<and> \<not> expired utc (6 * day) job10 \<and> \<not> expired utc (7 * day) job10 \<and>
   sevenDaysAgo utc (8 * day) = At day \<and>
   delete_calls (fst (job_step del_fails_10 utc (sevenDaysAgo utc (8 * day)) 1 True False job10)) = [10] \<and>
   artifacts_expire_at job40 = Some (At 1711542600000) \<and>
   sevenDaysAgo berlin noon = At 1711544400000 \<and> expired berlin noon job40"
proof -
  have h: "artifacts_expire_at job10 = Some (At 0)" by (simp add: job10_def)
  have h40: "artifacts_expire_at job40 = Some (At 1711542600000)" by (simp add: job40_def)
  have r: "\<bar>8 * day - days7\<bar> \<le> 8640000000000000" "\<bar>6 * day - days7\<bar> \<le> 8640000000000000"
    "\<bar>7 * day - days7\<bar> \<le> 8640000000000000"
    by (simp_all add: day_def days7_def)
  have a8: "sevenDaysAgo utc (8 * day) = At (8 * day - days7)"
    using expire_at_strictly_older [OF h, of utc "8 * day" 0 0 del_fails_10 1 True 0] utc_fixed r
    by blast
  have a6: "sevenDaysAgo utc (6 * day) = At (6 * day - days7)"
    using expire_at_strictly_older [OF h, of utc "6 * day" 0 0 del_fails_10 1 True 0] utc_fixed r
    by blast
  have a7: "sevenDaysAgo utc (7 * day) = At (7 * day - days7)"
    using expire_at_strictly_older [OF h, of utc "7 * day" 0 0 del_fails_10 1 True 0] utc_fixed r
    by blast
  have e8: "expired utc (8 * day) job10"
    and d8: "delete_calls (fst (job_step del_fails_10 utc (sevenDaysAgo utc (8 * day)) 1 True False job10)) = [10]"
    using expire_at_strictly_older [OF h, of utc "8 * day" 0 "8 * day - days7" del_fails_10 1 True 0] a8
    by (simp_all add: day_def days7_def job10_def)
  have e6: "\<not> expired utc (6 * day) job10"
    using expire_at_strictly_older [OF h, of utc "6 * day" 0 "6 * day - days7" del_fails_10 1 True 0] a6
    by (simp add: day_def days7_def)
  have e7: "\<not> expired utc (7 * day) job10"
    using expire_at_strictly_older [OF h, of utc "7 * day" 0 "7 * day - days7" del_fails_10 1 True 0] a7
    by (simp add: day_def days7_def)
  have b: "expired berlin noon job40"
    using expire_at_strictly_older [OF h40, of berlin noon 1711542600000 1711544400000 del_fails_10 1 True 0]
      berlin_ago
    by simp
  from a8 have "sevenDaysAgo utc (8 * day) = At day" by (simp add: day_def days7_def)
  with h h40 e8 e6 e7 d8 b berlin_ago show ?thesis by simp
qed

text \<open>
  Claim C4 as stated fails. On the Berlin host at \<open>noon\<close>, three days after the clocks
  went forward, job 40 expires 30 minutes after \<open>noon\<close> minus seven times 24 hours, so
  not strictly earlier than the reference time minus 7 days; the live run deletes its
  artifacts all the same, because seven calendar days back is one hour less.
\<close>

theorem expire_at_within_seven_days_deleted:
  "artifacts_expire_at job40 = Some (At (noon - days7 + 1800000)) \<and>
   \<not> (noon - days7 + 1800000 < noon - days7) \<and>
   expired berlin noon job40 \<and>
   job_step del_fails_10 berlin (sevenDaysAgo berlin noon) 1 True False job40 =
     ([LogExpired 40 1 1711542600000, LogAttempt 40 1, DeleteCall 1 40, LogDeleted 40], None)"
  by (simp add: expired_def expireAtDate_def berlin_ago job_step_def compare_and_delete_def
      job40_def del_fails_10_def)
     (simp add: noon_def days7_def)

text \<open>
  Claim C5, as the source has it. A job without \<open>artifacts_expire_at\<close> but with
  \<open>created_at\<close> is expired exactly when the creation date moved on seven calendar days
  of local time is strictly earlier than \<open>sevenDaysAgo\<close>. Where the host's offset from
  UTC never changes, that is when \<open>created_at\<close> plus seven times 24 hours is earlier than
  the reference time minus seven times 24 hours, equivalently when \<open>created_at\<close> is more
  than fourteen times 24 hours before the reference time.
\<close>

theorem created_at_fallback:
  assumes "artifacts_expire_at j = None" and "created_at j = Some c"
  shows "expired z now j = earlier (setDate_by z 7 c) (sevenDaysAgo z now) \<and>
         (delete_calls (fst (job_step del z (sevenDaysAgo z now) p dbg False j)) = [job_id j]) =
           earlier (setDate_by z 7 c) (sevenDaysAgo z now) \<and>
         (would_delete (fst (job_step del z (sevenDaysAgo z now) p dbg True j)) = [job_id j]) =
           earlier (setDate_by z 7 c) (sevenDaysAgo z now) \<and>
         ((\<forall>u. offset_at z u = k \<and> offset_of_local z u = k) \<and> c = At t \<and>
          \<bar>t + days7\<bar> \<le> 8640000000000000 \<and> \<bar>now - days7\<bar> \<le> 8640000000000000 \<longrightarrow>
          expired z now j = (t + days7 < now - days7) \<and>
          expired z now j = (t < now - 2 * days7))"
proof -
  have c1: "expired z now j = earlier (setDate_by z 7 c) (sevenDaysAgo z now)"
    using assms by (simp add: expired_def expireAtDate_def)
  have c2: "(delete_calls (fst (job_step del z (sevenDaysAgo z now) p dbg False j)) = [job_id j]) =
              earlier (setDate_by z 7 c) (sevenDaysAgo z now)"
    by (simp add: delete_calls_step c1)
  have c3: "(would_delete (fst (job_step del z (sevenDaysAgo z now) p dbg True j)) = [job_id j]) =
              earlier (setDate_by z 7 c) (sevenDaysAgo z now)"
    by (simp add: would_delete_step c1)
  have c4: "(\<forall>u. offset_at z u = k \<and> offset_of_local z u = k) \<and> c = At t \<and>
            \<bar>t + days7\<bar> \<le> 8640000000000000 \<and> \<bar>now - days7\<bar> \<le> 8640000000000000 \<longrightarrow>
            expired z now j = (t + days7 < now - days7) \<and>
            expired z now j = (t < now - 2 * days7)"
  proof
    assume a: "(\<forall>u. offset_at z u = k \<and> offset_of_local z u = k) \<and> c = At t \<and>
               \<bar>t + days7\<bar> \<le> 8640000000000000 \<and> \<bar>now - days7\<bar> \<le> 8640000000000000"
    then have f: "\<forall>u. offset_at z u = k \<and> offset_of_local z u = k" by simp
    from a have "expired z now j = (t + days7 < now - days7)"
      by (simp add: c1 sevenDaysAgo_def setDate_by_fixed [OF f] timeClip_def msPerDay_def
          days7_def)
    then show "expired z now j = (t + days7 < now - days7) \<and>
               expired z now j = (t < now - 2 * days7)"
      by auto
  qed
  show ?thesis
    by (intro conjI c1 c2 c3 c4)
qed

text \<open>
  Job 11 was created at time 0: on a UTC host it is expired on day 15, not on day 10,
  not on day 14 exactly.
\<close>

theorem created_at_fallback_witness:
  "artifacts_expire_at job11 = None \<and> created_at job11 = Some (At 0) \<and>
   expired utc (15 * day) job11 \<and> \<not> expired utc (10 * day) job11 \<and>
   \<not> expired utc (14 * day) job11"
proof -
  have h1: "artifacts_expire_at job11 = None" and h2: "created_at job11 = Some (At 0)"
    by (simp_all add: job11_def)
  have r: "\<bar>0 + days7\<bar> \<le> 8640000000000000" "\<bar>15 * day - days7\<bar> \<le> 8640000000000000"
    "\<bar>10 * day - days7\<bar> \<le> 8640000000000000" "\<bar>14 * day - days7\<bar> \<le> 8640000000000000"
    by (simp_all add: day_def days7_def)
  have "expired utc (15 * day) job11 = (0 < 15 * day - 2 * days7)"
    using created_at_fallback [OF h1 h2, of utc "15 * day" del_fails_10 1 True 0 0] utc_fixed r
    by blast
  moreover have "expired utc (10 * day) job11 = (0 < 10 * day - 2 * days7)"
    using created_at_fallback [OF h1 h2, of utc "10 * day" del_fails_10 1 True 0 0] utc_fixed r
    by blast
  moreover have "expired utc (14 * day) job11 = (0 < 14 * day - 2 * days7)"
    using created_at_fallback [OF h1 h2, of utc "14 * day" del_fails_10 1 True 0 0] utc_fixed r
    by blast
  ultimately show ?thesis
    using h1 h2 by (simp add: day_def days7_def)
qed

text \<open>
  Claim C5 as stated fails. On the Berlin host at \<open>noon\<close>, job 41 was created 13 days and
  23.5 hours before: its creation plus 7 days is not earlier than \<open>noon\<close> minus 7 days,
  and it is not more than 14 days old; the live run deletes its artifacts all the same.
\<close>

theorem created_within_fourteen_days_selected:
  "artifacts_expire_at job41 = None \<and>
   created_at job41 = Some (At (noon - 2 * days7 + 1800000)) \<and>
   \<not> (noon - 2 * days7 + 1800000 + days7 < noon - days7) \<and>
   \<not> (noon - 2 * days7 + 1800000 < noon - 2 * days7) \<and>
   expired berlin noon job41 \<and>
   job_step del_fails_10 berlin (sevenDaysAgo berlin noon) 1 False False job41 =
     ([LogExpired 41 1 1711542600000, LogAttempt 41 1, DeleteCall 1 41, LogDeleted 41], None)"
proof -
  have m: "setDate_by berlin 7 (At 1710937800000) = At 1711542600000"
    by (simp add: setDate_by_def Let_def berlin_def msPerDay_def timeClip_def)
  show ?thesis
    by (simp add: expired_def expireAtDate_def berlin_ago job_step_def compare_and_delete_def
        job41_def del_fails_10_def m)
       (simp add: noon_def days7_def)
qed






text \<open>
  Claim C8. A job with neither \<open>artifacts_expire_at\<close> nor \<open>created_at\<close> is skipped: its turn
  of the loop prints at most the debug line and throws nothing, in both modes, so the
  delete calls, the announced deletions and the outcome of a run are those of the run
  without that job.
\<close>

theorem no_timestamps_never_selected:
  assumes "artifacts_expire_at j = None" and "created_at j = None"
  shows "job_step del z ago p dbg dry j = ((if dbg then [LogNoDates (job_id j)] else []), None) \<and>
         \<not> expired z now j \<and>
         delete_calls (fst (job_loop del z ago p dbg dry (xs @ j # ys))) =
           delete_calls (fst (job_loop del z ago p dbg dry (xs @ ys))) \<and>
         would_delete (fst (job_loop del z ago p dbg dry (xs @ j # ys))) =
           would_delete (fst (job_loop del z ago p dbg dry (xs @ ys))) \<and>
         snd (job_loop del z ago p dbg dry (xs @ j # ys)) =
           snd (job_loop del z ago p dbg dry (xs @ ys))"
proof -
  have step: "job_step del z ago p dbg dry j = ((if dbg then [LogNoDates (job_id j)] else []), None)"
    using assms by (simp add: job_step_def)
  have "\<not> expired z now j"
    using assms by (simp add: expired_def expireAtDate_def)
  moreover have "delete_calls (fst (job_step del z ago p dbg dry j)) = []"
    and "would_delete (fst (job_step del z ago p dbg dry j)) = []"
    and "snd (job_step del z ago p dbg dry j) = None"
    by (simp_all add: step)
  ultimately show ?thesis
    by (simp add: step job_loop_append [of del z ago p dbg dry xs] job_loop_Cons
        delete_calls_append would_delete_append del: job_loop.simps(2))
qed

text \<open>
  Job 12 has no date: between jobs 10 and 11 it adds nothing to the delete calls.
\<close>

theorem no_timestamps_never_selected_witness:
  "artifacts_expire_at job12 = None \<and> created_at job12 = None \<and>
   job_step del_fails_10 utc (sevenDaysAgo utc (20 * day)) 1 True False job12 = ([LogNoDates 12], None) \<and>
   job_step del_fails_10 utc (sevenDaysAgo utc (20 * day)) 1 False True job12 = ([], None) \<and>
   delete_calls (fst (job_loop del_fails_10 utc (sevenDaysAgo utc (20 * day)) 1 True False
                        [job10, job12, job11])) = [10, 11]"
proof -
  have h1: "artifacts_expire_at job12 = None" and h2: "created_at job12 = None"
    by (simp_all add: job12_def)
  have ok: "True \<longrightarrow> (\<forall>j \<in> set ([job10] @ [job11]). expireAtDate utc j \<noteq> Some InvalidDate)"
    using formattable_two_pages by simp
  have rest: "delete_calls (fst (job_loop del_fails_10 utc (sevenDaysAgo utc (20 * day)) 1 True False
                                   ([job10] @ [job11]))) = [10, 11]"
    by (simp only: delete_calls_loop [OF ok])
       (simp add: expired_utc, simp add: job10_def job11_def)
  have a: "job_step del_fails_10 utc (sevenDaysAgo utc (20 * day)) 1 True False job12 = ([LogNoDates 12], None)"
    using no_timestamps_never_selected [OF h1 h2, of del_fails_10 utc "sevenDaysAgo utc (20 * day)" 1 True False "20 * day" "[job10]" "[job11]"]
    by (simp add: job12_def)
  have b: "job_step del_fails_10 utc (sevenDaysAgo utc (20 * day)) 1 False True job12 = ([], None)"
    using no_timestamps_never_selected [OF h1 h2, of del_fails_10 utc "sevenDaysAgo utc (20 * day)" 1 False True "20 * day" "[]" "[]"]
    by simp
  have c: "delete_calls (fst (job_loop del_fails_10 utc (sevenDaysAgo utc (20 * day)) 1 True False
                                [job10, job12, job11])) = [10, 11]"
    using no_timestamps_never_selected [OF h1 h2, of del_fails_10 utc "sevenDaysAgo utc (20 * day)" 1 True False "20 * day" "[job10]" "[job11]"]
      rest
    by (simp only: append.simps)
  show ?thesis
    using h1 h2 a b c by simp
qed

section \<open>Lemmas about the reconciler\<close>

subsection \<open>Strict equality\<close>

lemma strict_eq_iff:
  "strict_eq a b = (a = b \<and> (\<forall>xs. a \<noteq> Some (JArr xs)) \<and> (\<forall>ob. a \<noteq> Some (JObj ob)))"
  by (induction a b rule: strict_eq.induct) auto

lemma strict_eq_sym: "strict_eq a b = strict_eq b a"
  by (auto simp add: strict_eq_iff)

lemma strict_eq_eq: "strict_eq a b \<Longrightarrow> a = b"
  by (simp add: strict_eq_iff)

lemma strict_eq_trans: "strict_eq a b \<Longrightarrow> strict_eq b c \<Longrightarrow> strict_eq a c"
  using strict_eq_eq by fastforce

lemma strict_eq_same_key: "strict_eq a k \<Longrightarrow> strict_eq b k \<Longrightarrow> strict_eq a b"
  using strict_eq_sym strict_eq_trans by blast

subsection \<open>The fields of a summary entry\<close>

lemma summaryEntry_projectId:
  "property (summaryEntry p ts) ''projectId'' = property p ''id''"
  by (cases "property p ''id''"; cases "property p ''name''"; cases "property p ''statistics''")
     (simp_all add: summaryEntry_def Let_def property_def)

lemma summaryEntry_projectName:
  "property (summaryEntry p ts) ''projectName'' = property p ''name''"
  by (cases "property p ''id''"; cases "property p ''name''"; cases "property p ''statistics''")
     (simp_all add: summaryEntry_def Let_def property_def)


lemma summaryEntry_id: "property (summaryEntry p ts) ''id'' = None"
  by (cases "property p ''id''"; cases "property p ''name''"; cases "property p ''statistics''")
     (simp_all add: summaryEntry_def Let_def property_def)

lemma summaryEntry_name: "property (summaryEntry p ts) ''name'' = None"
  by (cases "property p ''id''"; cases "property p ''name''"; cases "property p ''statistics''")
     (simp_all add: summaryEntry_def Let_def property_def)

lemma summaryEntry_error:
  "property (summaryEntry p ts) ''error'' =
     Some (if available p
           then or_null (property p ''error'')
           else JStr unavailable)"
  by (cases "property p ''id''"; cases "property p ''name''"; cases "property p ''statistics''";
      cases "property p ''error''")
     (simp_all add: summaryEntry_def Let_def property_def available_def or_null_def)

lemma summaryEntry_bytes:
  "property (summaryEntry p ts) ''buildArtifactsSizeBytes'' =
     (if available p then field (property p ''statistics'') ''job_artifacts_size'' else Some (JNum 0))"
  by (cases "property p ''id''"; cases "property p ''name''"; cases "property p ''statistics''";
      cases "field (property p ''statistics'') ''job_artifacts_size''")
     (simp_all add: summaryEntry_def Let_def property_def available_def or_null_def)

subsection \<open>Upsert\<close>

lemma findIndex_ge: "- 1 \<le> findIndex P xs"
  by (induction xs) (simp_all add: Let_def)

lemma findIndex_none: "findIndex P xs = - 1 \<longleftrightarrow> (\<forall>x \<in> set xs. \<not> P x)"
proof (induction xs)
  case Nil
  then show ?case by simp
next
  case (Cons x xs)
  with findIndex_ge [of P xs] show ?case
    by (auto simp add: Let_def)
qed

lemma findIndex_first:
  "- 1 < findIndex P xs \<Longrightarrow>
     nat (findIndex P xs) < length xs \<and> P (xs ! nat (findIndex P xs)) \<and>
     (\<forall>j < nat (findIndex P xs). \<not> P (xs ! j))"
proof (induction xs)
  case Nil
  then show ?case by simp
next
  case (Cons x xs)
  show ?case
  proof (cases "P x")
    case True
    then show ?thesis by simp
  next
    case False
    with Cons.prems have pos: "- 1 < findIndex P xs"
      by (simp add: Let_def split: if_splits)
    then have idx: "nat (findIndex P (x # xs)) = Suc (nat (findIndex P xs))"
      using False by (simp add: Let_def nat_add_distrib)
    from Cons.IH [OF pos] False show ?thesis
      unfolding idx by (auto simp add: less_Suc_eq_0_disj)
  qed
qed

lemma upsert_Nil: "upsert [] k e = [e]"
  by (simp add: upsert_def)

lemma upsert_Cons:
  "upsert (x # xs) k e =
     (if strict_eq (property x ''projectId'') k then e # xs else x # upsert xs k e)"
proof -
  let ?P = "\<lambda>e. strict_eq (property e ''projectId'') k"
  have "- 1 \<le> findIndex ?P xs" by (rule findIndex_ge)
  then show ?thesis
    by (auto simp add: upsert_def Let_def nat_add_distrib)
qed

lemma set_upsert: "set (upsert xs k e) \<subseteq> insert e (set xs)"
  by (induction xs) (auto simp add: upsert_Nil upsert_Cons)

lemma upsert_member: "e \<in> set (upsert xs k e)"
  by (induction xs) (auto simp add: upsert_Nil upsert_Cons)

lemma unique_ids_upsert:
  assumes "unique_ids xs" and "property e ''projectId'' = k"
  shows "unique_ids (upsert xs k e)"
  using assms(1)
proof (induction xs)
  case Nil
  then show ?case by (simp add: upsert_Nil)
next
  case (Cons x xs)
  show ?case
  proof (cases "strict_eq (property x ''projectId'') k")
    case True
    have "\<not> strict_eq (property e' ''projectId'') k" if "e' \<in> set xs" for e'
    proof
      assume "strict_eq (property e' ''projectId'') k"
      with True have "strict_eq (property e' ''projectId'') (property x ''projectId'')"
        by (rule strict_eq_same_key [rotated])
      with Cons.prems that show False by (auto simp add: list_ex_iff)
    qed
    with True Cons.prems assms(2) show ?thesis
      by (auto simp add: upsert_Cons list_ex_iff)
  next
    case False
    have "\<not> strict_eq (property e' ''projectId'') (property x ''projectId'')"
      if "e' \<in> set (upsert xs k e)" for e'
    proof (cases "e' = e")
      case True
      with False assms(2) show ?thesis by (simp add: strict_eq_sym)
    next
      case False
      with that set_upsert [of xs k e] have "e' \<in> set xs" by auto
      with Cons.prems show ?thesis by (auto simp add: list_ex_iff)
    qed
    with False Cons show ?thesis
      by (auto simp add: upsert_Cons list_ex_iff)
  qed
qed

subsection \<open>Traces\<close>

lemma requests_append: "requests (xs @ ys) = requests xs @ requests ys"
  by (induction xs rule: requests.induct) simp_all

lemma writes_append: "writes (xs @ ys) = writes xs @ writes ys"
  by (induction xs rule: writes.induct) simp_all

subsection \<open>The gathering loop\<close>

lemma gather_records:
  "fst (gather get f S ps) = map (\<lambda>p. fst (gather_step get f S p)) ps"
  by (induction ps) (simp_all add: Let_def split_beta)

lemma gather_effects:
  "snd (gather get f S ps) = concat (map (\<lambda>p. snd (gather_step get f S p)) ps)"
  by (induction ps) (simp_all add: Let_def split_beta)

lemma writes_gather_step: "writes (snd (gather_step get f S p)) = []"
  by (simp add: gather_step_def split: option.splits)

lemma writes_gather: "writes (snd (gather get f S ps)) = []"
  by (induction ps) (simp_all add: Let_def split_beta writes_append writes_gather_step)

subsection \<open>The summary loop\<close>

lemma generate_final:
  "fst (generate c k S (p # rest)) =
     fst (generate c (Suc k) (upsert S (property p ''id'') (summaryEntry p (c k))) rest)"
  by (simp add: Let_def split_beta)

lemma generate_effects:
  "snd (generate c k S (p # rest)) =
     WriteSummary (upsert S (property p ''id'') (summaryEntry p (c k))) #
     snd (generate c (Suc k) (upsert S (property p ''id'') (summaryEntry p (c k))) rest)"
  by (simp add: Let_def split_beta)

lemma requests_generate: "requests (snd (generate c k S recs)) = []"
  by (induction recs arbitrary: k S) (simp_all add: generate_effects del: generate.simps(2))

lemma length_writes_generate: "length (writes (snd (generate c k S recs))) = length recs"
  by (induction recs arbitrary: k S) (simp_all add: generate_effects del: generate.simps(2))

lemma generate_last:
  "fst (generate c k S recs) = last (S # writes (snd (generate c k S recs)))"
  by (induction recs arbitrary: k S) (simp_all add: generate_effects generate_final del: generate.simps(2))

lemma generate_unique:
  "unique_ids S \<Longrightarrow>
     unique_ids (fst (generate c k S recs)) \<and>
     (\<forall>s \<in> set (writes (snd (generate c k S recs))). unique_ids s)"
proof (induction recs arbitrary: k S)
  case Nil
  then show ?case by simp
next
  case (Cons p rest)
  let ?S = "upsert S (property p ''id'') (summaryEntry p (c k))"
  have "unique_ids ?S"
    using Cons.prems by (rule unique_ids_upsert) (rule summaryEntry_projectId)
  with Cons.IH [of ?S "Suc k"] show ?case
    by (simp add: generate_effects generate_final del: generate.simps(2))
qed

lemma generate_step_write:
  "i < length recs \<Longrightarrow>
     writes (snd (generate c k S recs)) ! i =
       upsert ((S # writes (snd (generate c k S recs))) ! i)
         (property (recs ! i) ''id'') (summaryEntry (recs ! i) (c (k + i)))"
proof (induction recs arbitrary: k S i)
  case Nil
  then show ?case by simp
next
  case (Cons p rest)
  show ?case
  proof (cases i)
    case 0
    then show ?thesis by (simp add: generate_effects del: generate.simps(2))
  next
    case (Suc n)
    with Cons.prems have "n < length rest" by simp
    from Cons.IH [OF this, of "Suc k"] Suc show ?thesis
      by (simp add: generate_effects del: generate.simps(2))
  qed
qed

subsection \<open>Main\<close>

lemma main_full:
  assumes "\<not> truthy t" and "fetch_pages (get_projects gl) 1 [] = Some (Inr ps)"
  shows "main gl c t f fs =
           Some (write_out c fs (gather (get_project gl) f (load (summary_file fs)) ps))"
  using assms by (simp add: main_def)

lemma write_out_files:
  "fst (write_out c fs g) =
     \<lparr>summary_file = (if fst g = [] then summary_file fs
                       else Json (fst (generate c 0 (load (summary_file fs)) (fst g)))),
      raw_file = Json (fst g)\<rparr>"
  by (simp add: write_out_def Let_def split_beta)

lemma write_out_effects:
  "fst (snd (write_out c fs g)) =
     snd g @ WriteRaw (fst g) # snd (generate c 0 (load (summary_file fs)) (fst g))"
  by (simp add: write_out_def Let_def split_beta)

lemma write_out_ending: "snd (snd (write_out c fs g)) = Completed"
  by (simp add: write_out_def Let_def split_beta)

lemma write_out_unique:
  assumes "unique_ids (load (summary_file fs))" and "writes (snd g) = []"
  shows "unique_ids (load (summary_file (fst (write_out c fs g)))) \<and>
         (\<forall>s \<in> set (writes (fst (snd (write_out c fs g)))). unique_ids s)"
  using assms generate_unique [OF assms(1), of c 0 "fst g"]
  by (simp add: write_out_files write_out_effects writes_append load_def)

lemma main_unique:
  assumes "unique_ids (load (summary_file fs))" and "main gl c t f fs = Some (fs', es, how)"
  shows "unique_ids (load (summary_file fs')) \<and> (\<forall>s \<in> set (writes es). unique_ids s)"
proof (cases "truthy t")
  case True
  show ?thesis
  proof (cases "get_project gl t")
    case (Inl msg)
    with True assms show ?thesis by (auto simp add: main_def)
  next
    case (Inr data)
    with True assms(2) have "write_out c fs ([data], [GetProject t]) = (fs', es, how)"
      by (simp add: main_def)
    with write_out_unique [OF assms(1), of "([data], [GetProject t])" c] show ?thesis
      by simp
  qed
next
  case False
  show ?thesis
  proof (cases "fetch_pages (get_projects gl) 1 []")
    case None
    with False assms(2) show ?thesis by (simp add: main_def)
  next
    case (Some r)
    show ?thesis
    proof (cases r)
      case (Inl msg)
      with Some False assms show ?thesis by (auto simp add: main_def)
    next
      case (Inr ps)
      let ?g = "gather (get_project gl) f (load (summary_file fs)) ps"
      from Inr Some False assms(2) have "write_out c fs ?g = (fs', es, how)"
        by (simp add: main_def)
      with write_out_unique [OF assms(1), of ?g c] show ?thesis
        by (simp add: writes_gather)
    qed
  qed
qed

lemma runs_unique:
  "unique_ids (load (summary_file fs)) \<Longrightarrow> runs rs fs = Some fs' \<Longrightarrow>
     unique_ids (load (summary_file fs'))"
proof (induction rs arbitrary: fs)
  case Nil
  then show ?case by simp
next
  case (Cons r rs)
  from Cons.prems(2) obtain fs1 es how
    where m: "main (platform r) (stamps r) (target r) (force r) fs = Some (fs1, es, how)"
      and rest: "runs rs fs1 = Some fs'"
    by (auto split: option.splits)
  from main_unique [OF Cons.prems(1) m] have "unique_ids (load (summary_file fs1))" by simp
  then show ?case using rest by (rule Cons.IH)
qed

subsection \<open>Reuse of stored entries\<close>

lemma find_unique:
  "unique_ids S \<Longrightarrow> e \<in> set S \<Longrightarrow> strict_eq (property e ''projectId'') k \<Longrightarrow>
     find (\<lambda>x. strict_eq (property x ''projectId'') k) S = Some e"
proof (induction S)
  case Nil
  then show ?case by simp
next
  case (Cons x S)
  show ?case
  proof (cases "strict_eq (property x ''projectId'') k")
    case True
    have "e = x"
    proof (rule ccontr)
      assume "e \<noteq> x"
      with Cons.prems(2) have "e \<in> set S" by simp
      moreover from Cons.prems(3) True
      have "strict_eq (property e ''projectId'') (property x ''projectId'')"
        by (rule strict_eq_same_key)
      ultimately show False using Cons.prems(1) by (auto simp add: list_ex_iff)
    qed
    with True show ?thesis by simp
  next
    case False
    with Cons.prems(3) have "e \<noteq> x" by auto
    with Cons.prems(2) have "e \<in> set S" by simp
    with Cons False show ?thesis by simp
  qed
qed

lemma gather_step_reused:
  "reused f S p \<Longrightarrow> existingEntry S p = Some e \<Longrightarrow>
     gather_step get f S p = (e, [Skipping (property p ''id'')])"
  by (simp add: reused_def gather_step_def)


lemma requests_gather_step:
  "requests (snd (gather_step get f S p)) = (if reused f S p then [] else [property p ''id''])"
  by (auto simp add: reused_def gather_step_def split: option.splits)

lemma requests_gather:
  "requests (snd (gather get f S ps)) =
     map (\<lambda>p. property p ''id'') (filter (\<lambda>p. \<not> reused f S p) ps)"
  by (induction ps) (simp_all add: Let_def split_beta requests_append requests_gather_step)

lemma reused_same_id:
  "property p ''id'' = property q ''id'' \<Longrightarrow> reused f S p = reused f S q"
  by (simp add: reused_def existingEntry_def)

lemma requests_write_out:
  "requests (fst (snd (write_out c fs g))) = requests (snd g)"
  by (simp add: write_out_effects requests_append requests_generate)

lemma writes_write_out:
  "writes (snd g) = [] \<Longrightarrow>
     writes (fst (snd (write_out c fs g))) =
       writes (snd (generate c 0 (load (summary_file fs)) (fst g)))"
  by (simp add: write_out_effects writes_append)

lemma write_out_triple:
  "write_out c fs g = (fst (write_out c fs g), fst (snd (write_out c fs g)), Completed)"
  by (simp add: write_out_def Let_def split_beta)

subsection \<open>What an upsert does\<close>

lemma upsert_appends:
  "\<forall>x \<in> set S. \<not> strict_eq (property x ''projectId'') k \<Longrightarrow> upsert S k e = S @ [e]"
  by (simp add: upsert_def findIndex_none [THEN iffD2])

lemma upsert_replaces:
  assumes "i < length S" and "strict_eq (property (S ! i) ''projectId'') k"
    and "\<forall>j < i. \<not> strict_eq (property (S ! j) ''projectId'') k"
  shows "upsert S k e = S[i := e]"
proof -
  let ?P = "\<lambda>x. strict_eq (property x ''projectId'') k"
  have "findIndex ?P S \<noteq> - 1"
    using assms(1,2) by (auto simp add: findIndex_none)
  with findIndex_ge [of ?P S] have pos: "- 1 < findIndex ?P S" by simp
  from findIndex_first [OF pos] assms have "nat (findIndex ?P S) = i"
    by (metis linorder_neqE_nat)
  with pos show ?thesis by (simp add: upsert_def)
qed

subsection \<open>Entries that survive a run\<close>









lemma load_write_out:
  "load (summary_file (fst (write_out c fs g))) =
     fst (generate c 0 (load (summary_file fs)) (fst g))"
  by (simp add: write_out_files load_def)




subsection \<open>The shape of written entries\<close>

lemma generate_all:
  assumes "\<forall>r stamp. Q (summaryEntry r stamp)"
  shows "\<forall>e \<in> set S. Q e \<Longrightarrow> \<forall>e \<in> set (fst (generate c k S recs)). Q e"
proof (induction recs arbitrary: k S)
  case Nil
  then show ?case by simp
next
  case (Cons r recs)
  have "\<forall>e \<in> set (upsert S (property r ''id'') (summaryEntry r (c k))). Q e"
    using set_upsert [of S "property r ''id''" "summaryEntry r (c k)"] Cons.prems assms by auto
  then show ?case
    unfolding generate_final by (rule Cons.IH)
qed

lemma main_all:
  assumes "\<forall>r stamp. Q (summaryEntry r stamp)"
    and "\<forall>e \<in> set (load (summary_file fs)). Q e"
    and "main gl c t f fs = Some (fs', es, how)"
  shows "\<forall>e \<in> set (load (summary_file fs')). Q e"
proof -
  have w: "\<forall>e \<in> set (load (summary_file (fst (write_out c fs g)))). Q e" for g
    unfolding load_write_out using assms(1,2) by (rule generate_all)
  show ?thesis
  proof (cases "truthy t")
    case True
    show ?thesis
    proof (cases "get_project gl t")
      case (Inl msg)
      with True assms show ?thesis by (auto simp add: main_def)
    next
      case (Inr data)
      with True assms(3) have "fs' = fst (write_out c fs ([data], [GetProject t]))"
        by (simp add: main_def)
      with w show ?thesis by simp
    qed
  next
    case False
    show ?thesis
    proof (cases "fetch_pages (get_projects gl) 1 []")
      case None
      with False assms(3) show ?thesis by (simp add: main_def)
    next
      case (Some r)
      show ?thesis
      proof (cases r)
        case (Inl msg)
        with Some False assms show ?thesis by (auto simp add: main_def)
      next
        case (Inr ps)
        with Some False assms(3)
        have "fs' = fst (write_out c fs (gather (get_project gl) f (load (summary_file fs)) ps))"
          by (simp add: main_def)
        with w show ?thesis by simp
      qed
    qed
  qed
qed

lemma runs_all:
  assumes "\<forall>r stamp. Q (summaryEntry r stamp)"
  shows "\<forall>e \<in> set (load (summary_file fs)). Q e \<Longrightarrow> runs rs fs = Some fs' \<Longrightarrow>
           \<forall>e \<in> set (load (summary_file fs')). Q e"
proof (induction rs arbitrary: fs)
  case Nil
  then show ?case by simp
next
  case (Cons r rs)
  from Cons.prems(2) obtain fs1 es how
    where m: "main (platform r) (stamps r) (target r) (force r) fs = Some (fs1, es, how)"
      and rest: "runs rs fs1 = Some fs'"
    by (auto split: option.splits)
  from main_all [OF assms Cons.prems(1) m] rest show ?case by (rule Cons.IH)
qed

lemma written_entries_have_no_id:
  assumes "load (summary_file fs) = []" and "runs rs fs = Some fs'"
  shows "\<forall>e \<in> set (load (summary_file fs')).
           property e ''id'' = None \<and> property e ''name'' = None"
proof (rule runs_all [where Q = "\<lambda>e. property e ''id'' = None \<and> property e ''name'' = None"])
  show "\<forall>r stamp. property (summaryEntry r stamp) ''id'' = None \<and>
                    property (summaryEntry r stamp) ''name'' = None"
    by (simp add: summaryEntry_id summaryEntry_name)
  show "\<forall>e \<in> set (load (summary_file fs)). property e ''id'' = None \<and> property e ''name'' = None"
    by (simp add: assms(1))
  show "runs rs fs = Some fs'" by (rule assms(2))
qed

subsection \<open>Runs over the concrete platforms\<close>

lemma one_listing: "fetch_pages (get_projects one_project) 1 [] = Some (Inr [demo])"
  by (simp add: fetch_pages.simps one_project_def)


lemma demo_summary: "summaryEntry demo_data (monday 0) = demo_entry"
  by (simp add: summaryEntry_def Let_def available_def or_null_def demo_data_def demo_entry_def property_def monday_def
      megabytes_def hundredths_def fixed2_def)

lemma nameless_summary: "summaryEntry demo_entry (tuesday 0) = nameless_entry"
  by (simp add: summaryEntry_def Let_def available_def or_null_def demo_entry_def nameless_entry_def property_def tuesday_def
      megabytes_def hundredths_def fixed2_def)

text \<open>
  Over \<open>one_project\<close> the second run skips the project and yet writes a second entry,
  the one without \<open>projectId\<close>.
\<close>

lemma first_run:
  "main one_project monday (Some JNull) False fresh =
     Some (after_first,
           [GetProject (Some (JNum 1)), WriteRaw [demo_data], WriteSummary [demo_entry]],
           Completed)"
proof -
  have g: "gather (get_project one_project) False [] [demo] =
             ([demo_data], [GetProject (Some (JNum 1))])"
    by (simp add: gather_step_def existingEntry_def projectWithStats_def one_project_def
        demo_def property_def)
  have u: "property demo_data ''id'' = Some (JNum 1)"
    by (simp add: demo_data_def property_def)
  have m: "main one_project monday (Some JNull) False fresh =
             Some (write_out monday fresh
                    (gather (get_project one_project) False (load (summary_file fresh)) [demo]))"
    by (rule main_full [OF _ one_listing]) simp
  have l: "load (summary_file fresh) = []"
    by (simp add: fresh_def load_def)
  show ?thesis
    unfolding m l g
    by (simp add: write_out_def Let_def l u demo_summary upsert_def after_first_def)
qed

lemma second_run:
  "main one_project tuesday (Some JNull) False after_first =
     Some (after_second,
           [Skipping (Some (JNum 1)), WriteRaw [demo_entry],
            WriteSummary [demo_entry, nameless_entry]],
           Completed)"
proof -
  have g: "gather (get_project one_project) False [demo_entry] [demo] =
             ([demo_entry], [Skipping (Some (JNum 1))])"
    by (simp add: gather_step_def existingEntry_def demo_def demo_entry_def property_def)
  have u: "property demo_entry ''id'' = None" "property demo_entry ''projectId'' = Some (JNum 1)"
    by (simp_all add: demo_entry_def property_def)
  have m: "main one_project tuesday (Some JNull) False after_first =
             Some (write_out tuesday after_first
                    (gather (get_project one_project) False (load (summary_file after_first)) [demo]))"
    by (rule main_full [OF _ one_listing]) simp
  have l: "load (summary_file after_first) = [demo_entry]"
    by (simp add: load_def after_first_def)
  show ?thesis
    unfolding m l g
    by (simp add: write_out_def Let_def l u nameless_summary upsert_def after_second_def)
qed

lemma two_runs: "runs [monday_run, tuesday_run] fresh = Some after_second"
  by (simp add: monday_run_def tuesday_run_def first_run second_run)






section \<open>Properties of the reconciler\<close>




text \<open>
  Claim C2. In a full run without \<open>forceUpdate\<close>, over a stored collection without
  duplicate identifiers: when the collection holds an entry whose \<open>projectId\<close> is the
  identifier of a listed project, whose \<open>error\<close> is null and whose \<open>statistics\<close> is a
  statistics mapping, the run completes without a statistics request for that
  identifier, and the record of that project (its place in the raw file) is that very
  entry.
\<close>

theorem stored_entry_reused_without_fetch:
  assumes "\<not> truthy t"
    and "fetch_pages (get_projects gl) 1 [] = Some (Inr ps)"
    and "unique_ids (load (summary_file fs))"
    and "i < length ps"
    and "e \<in> set (load (summary_file fs))"
    and "strict_eq (property e ''projectId'') (property (ps ! i) ''id'')"
    and "property e ''error'' = Some JNull"
    and "property e ''statistics'' = Some (JObj st)"
  shows "\<exists>fs' es recs.
           main gl c t False fs = Some (fs', es, Completed) \<and>
           property (ps ! i) ''id'' \<notin> set (requests es) \<and>
           raw_file fs' = Json recs \<and> length recs = length ps \<and> recs ! i = e"
proof -
  let ?S = "load (summary_file fs)"
  let ?g = "gather (get_project gl) False ?S ps"
  have found: "existingEntry ?S (ps ! i) = Some e"
    unfolding existingEntry_def using assms(3,5,6) by (rule find_unique)
  then have skip: "reused False ?S (ps ! i)"
    using assms(7,8) by (simp add: reused_def)
  have m: "main gl c t False fs = Some (write_out c fs ?g)"
    using assms(1,2) by (rule main_full)
  have "property (ps ! i) ''id'' \<notin> set (requests (snd ?g))"
  proof
    assume "property (ps ! i) ''id'' \<in> set (requests (snd ?g))"
    then obtain q where "q \<in> set ps" and "\<not> reused False ?S q"
      and "property q ''id'' = property (ps ! i) ''id''"
      by (auto simp add: requests_gather)
    with skip reused_same_id [of q "ps ! i" False ?S] show False by simp
  qed
  moreover have "fst ?g ! i = e"
    using assms(4) gather_step_reused [OF skip found] by (simp add: gather_records)
  moreover have "length (fst ?g) = length ps"
    by (simp add: gather_records)
  ultimately have
    "main gl c t False fs =
       Some (fst (write_out c fs ?g), fst (snd (write_out c fs ?g)), Completed) \<and>
     property (ps ! i) ''id'' \<notin> set (requests (fst (snd (write_out c fs ?g)))) \<and>
     raw_file (fst (write_out c fs ?g)) = Json (fst ?g) \<and>
     length (fst ?g) = length ps \<and> fst ?g ! i = e"
    using m write_out_triple [of c fs ?g]
    by (simp add: requests_write_out write_out_files)
  then show ?thesis by blast
qed

text \<open>
  After the first run over \<open>one_project\<close>, the second run reuses the stored entry of
  project 1 and requests nothing for it.
\<close>

theorem stored_entry_reused_without_fetch_witness:
  "demo_entry \<in> set (load (summary_file after_first)) \<and>
   property demo_entry ''error'' = Some JNull \<and>
   (\<exists>fs' es recs.
      main one_project tuesday (Some JNull) False after_first = Some (fs', es, Completed) \<and>
      Some (JNum 1) \<notin> set (requests es) \<and>
      raw_file fs' = Json recs \<and> length recs = 1 \<and> recs ! 0 = demo_entry)"
proof -
  have l: "load (summary_file after_first) = [demo_entry]"
    by (simp add: load_def after_first_def)
  have h3: "unique_ids (load (summary_file after_first))"
    and h5: "demo_entry \<in> set (load (summary_file after_first))"
    by (simp_all add: l)
  have h4: "0 < length [demo]" by simp
  have h6: "strict_eq (property demo_entry ''projectId'') (property ([demo] ! 0) ''id'')"
    by (simp add: demo_entry_def demo_def property_def)
  have h7: "property demo_entry ''error'' = Some JNull"
    and h8: "property demo_entry ''statistics'' = Some (JObj [(''job_artifacts_size'', JNum 5242880)])"
    by (simp_all add: demo_entry_def property_def)
  have id: "property ([demo] ! 0) ''id'' = Some (JNum 1)"
    by (simp add: demo_def property_def)
  show ?thesis
    using stored_entry_reused_without_fetch [OF _ one_listing h3 h4 h5 h6 h7 h8,
        of "Some JNull" tuesday] h5 h7
    unfolding id by simp
qed

text \<open>
  Claim C3. For a project skipped by the test of line 209, the record pushed is the
  stored entry. If that entry has no \<open>id\<close> and no \<open>name\<close>, as the entries \<open>main\<close> writes,
  the entry built from it has no \<open>projectId\<close> and no \<open>projectName\<close>, and the upsert of that
  turn is made under the identifier \<open>undefined\<close>: the collection written in that turn is
  the one before it with the new entry upserted under \<open>undefined\<close>, and contains it.
\<close>

theorem skipped_record_upserted_without_id:
  assumes "\<not> truthy t"
    and "fetch_pages (get_projects gl) 1 [] = Some (Inr ps)"
    and "i < length ps"
    and "reused False (load (summary_file fs)) (ps ! i)"
    and "existingEntry (load (summary_file fs)) (ps ! i) = Some e"
    and "property e ''id'' = None"
    and "property e ''name'' = None"
  shows "\<exists>fs' es recs.
           main gl c t False fs = Some (fs', es, Completed) \<and>
           raw_file fs' = Json recs \<and> recs ! i = e \<and>
           property (summaryEntry e (c i)) ''projectId'' = None \<and>
           property (summaryEntry e (c i)) ''projectName'' = None \<and>
           i < length (writes es) \<and>
           writes es ! i =
             upsert ((load (summary_file fs) # writes es) ! i) None (summaryEntry e (c i)) \<and>
           summaryEntry e (c i) \<in> set (writes es ! i)"
proof -
  let ?S = "load (summary_file fs)"
  let ?g = "gather (get_project gl) False ?S ps"
  let ?w = "writes (snd (generate c 0 ?S (fst ?g)))"
  have m: "main gl c t False fs = Some (write_out c fs ?g)"
    using assms(1,2) by (rule main_full)
  have len: "length (fst ?g) = length ps"
    by (simp add: gather_records)
  have rec: "fst ?g ! i = e"
    using assms(3) gather_step_reused [OF assms(4,5)] by (simp add: gather_records)
  have w: "writes (fst (snd (write_out c fs ?g))) = ?w"
    by (rule writes_write_out) (rule writes_gather)
  have step: "?w ! i = upsert ((?S # ?w) ! i) None (summaryEntry e (c i))"
    using generate_step_write [of i "fst ?g" c 0 ?S] assms(3,6) len rec by simp
  have "summaryEntry e (c i) \<in> set (?w ! i)"
    unfolding step by (rule upsert_member)
  moreover have "i < length ?w"
    using assms(3) len by (simp add: length_writes_generate)
  ultimately have
    "main gl c t False fs =
       Some (fst (write_out c fs ?g), fst (snd (write_out c fs ?g)), Completed) \<and>
     raw_file (fst (write_out c fs ?g)) = Json (fst ?g) \<and> fst ?g ! i = e \<and>
     property (summaryEntry e (c i)) ''projectId'' = None \<and>
     property (summaryEntry e (c i)) ''projectName'' = None \<and>
     i < length (writes (fst (snd (write_out c fs ?g)))) \<and>
     writes (fst (snd (write_out c fs ?g))) ! i =
       upsert ((?S # writes (fst (snd (write_out c fs ?g)))) ! i) None (summaryEntry e (c i)) \<and>
     summaryEntry e (c i) \<in> set (writes (fst (snd (write_out c fs ?g))) ! i)"
    using m write_out_triple [of c fs ?g] rec step assms(6,7)
    unfolding w
    by (simp add: write_out_files summaryEntry_projectId summaryEntry_projectName)
  then show ?thesis by blast
qed

text \<open>
  In the second run over \<open>one_project\<close> project 1 is reused; its new entry has no
  identifier and no name and lands under \<open>undefined\<close>, behind the stored one.
\<close>

theorem skipped_record_upserted_without_id_witness:
  "reused False (load (summary_file after_first)) demo \<and>
   property demo ''id'' = Some (JNum 1) \<and>
   (\<exists>fs' es recs.
      main one_project tuesday (Some JNull) False after_first = Some (fs', es, Completed) \<and>
      raw_file fs' = Json recs \<and> recs ! 0 = demo_entry \<and>
      property (summaryEntry demo_entry (tuesday 0)) ''projectId'' = None \<and>
      property (summaryEntry demo_entry (tuesday 0)) ''projectName'' = None \<and>
      writes es ! 0 = upsert [demo_entry] None (summaryEntry demo_entry (tuesday 0)) \<and>
      summaryEntry demo_entry (tuesday 0) \<in> set (writes es ! 0))"
proof -
  have l: "load (summary_file after_first) = [demo_entry]"
    by (simp add: load_def after_first_def)
  have h3: "0 < length [demo]" by simp
  have h5: "existingEntry (load (summary_file after_first)) ([demo] ! 0) = Some demo_entry"
    by (simp add: l existingEntry_def demo_entry_def demo_def property_def)
  have h4: "reused False (load (summary_file after_first)) ([demo] ! 0)"
    using h5 by (simp add: reused_def) (simp add: demo_entry_def property_def)
  have h6: "property demo_entry ''id'' = None" and h7: "property demo_entry ''name'' = None"
    by (simp_all add: demo_entry_def property_def)
  have id: "property demo ''id'' = Some (JNum 1)"
    by (simp add: demo_def property_def)
  show ?thesis
    using skipped_record_upserted_without_id [OF _ one_listing h3 h4 h5 h6 h7,
        of "Some JNull" tuesday] h4 id
    by (auto simp add: l)
qed

text \<open>
  Claim C9. If the summary file holds no two entries with the same \<open>projectId\<close>, then
  after any sequence of runs, whatever their targets, flags and answers of the platform,
  it still holds none. An upsert appends the entry when no stored entry has the
  identifier, and otherwise replaces the first entry that has it, in place.
\<close>

theorem project_ids_stay_unique:
  assumes "unique_ids (load (summary_file fs))" and "runs rs fs = Some fs'"
  shows "unique_ids (load (summary_file fs')) \<and>
         ((\<forall>x \<in> set S. \<not> strict_eq (property x ''projectId'') k) \<longrightarrow> upsert S k e = S @ [e]) \<and>
         (\<forall>i < length S.
            strict_eq (property (S ! i) ''projectId'') k \<and>
            (\<forall>j < i. \<not> strict_eq (property (S ! j) ''projectId'') k) \<longrightarrow>
            upsert S k e = S[i := e])"
  using runs_unique [OF assms] upsert_appends [of S k e] upsert_replaces [of _ S k e]
  by blast

text \<open>
  Two runs from no file at all: the collection has the entry of project 1 and one entry
  without identifier; a further upsert under \<open>undefined\<close> replaces the latter.
\<close>

theorem project_ids_stay_unique_witness:
  "unique_ids (load (summary_file fresh)) \<and>
   runs [monday_run, tuesday_run] fresh = Some after_second \<and>
   unique_ids [demo_entry, nameless_entry] \<and>
   upsert [demo_entry] None nameless_entry = [demo_entry, nameless_entry] \<and>
   upsert [demo_entry, nameless_entry] None nameless_entry = [demo_entry, nameless_entry]"
proof -
  have h: "unique_ids (load (summary_file fresh))"
    by (simp add: fresh_def load_def)
  have l: "load (summary_file after_second) = [demo_entry, nameless_entry]"
    by (simp add: after_second_def load_def)
  have a: "\<forall>x \<in> set [demo_entry]. \<not> strict_eq (property x ''projectId'') None"
    by (simp add: demo_entry_def property_def)
  have b: "strict_eq (property ([demo_entry, nameless_entry] ! 1) ''projectId'') None \<and>
           (\<forall>j < 1. \<not> strict_eq (property ([demo_entry, nameless_entry] ! j) ''projectId'') None)"
    by (simp add: demo_entry_def nameless_entry_def property_def)
  from project_ids_stay_unique [OF h two_runs, of "[demo_entry]" None nameless_entry] a
  have "unique_ids [demo_entry, nameless_entry]"
    and "upsert [demo_entry] None nameless_entry = [demo_entry, nameless_entry]"
    unfolding l by simp_all
  moreover
  from project_ids_stay_unique [OF h two_runs, of "[demo_entry, nameless_entry]" None nameless_entry] b
  have "upsert [demo_entry, nameless_entry] None nameless_entry = [demo_entry, nameless_entry]"
    by (metis length_Cons list.size(3) list_update_code(2,3) One_nat_def lessI)
  ultimately show ?thesis using h two_runs by simp
qed

text \<open>
  Claim C10, where the source departs from it. Project \<open>idle\<close> has statistics with
  \<open>job_artifacts_size\<close> present and equal to 0. The test of line 251 takes the 0 for a
  missing value: the entry gets the size 0 and the error that says the size is not
  available, although it is.
\<close>

theorem zero_size_reported_unavailable:
  "property idle_data ''statistics'' = Some (JObj [(''job_artifacts_size'', JNum 0)]) \<and>
   property (summaryEntry idle_data (monday 1)) ''buildArtifactsSizeBytes'' = Some (JNum 0) \<and>
   property (summaryEntry idle_data (monday 1)) ''error'' =
     Some (JStr ''Build artifacts size not available in project statistics.'')"
  by (simp add: summaryEntry_error summaryEntry_bytes available_def)
     (simp add: idle_data_def property_def unavailable_def)

end
